theory Spec2Isabelle
  imports Main "HOL-Library.Word" "HOL-Library.Sublist"
begin

section \<open>JavaScript strings and values\<close>

text \<open>
  A JavaScript string is a sequence of UTF-16 code units. The regular expression of the
  \<^verbatim>\<open>/deepseek\<close> handler has no \<^verbatim>\<open>u\<close> flag, so its \<^verbatim>\<open>.\<close> consumes one code unit, and
  \<^verbatim>\<open>String.prototype.trim\<close> removes code units as well; strings are therefore lists of
  16-bit words. An ASCII literal of the source is written with \<open>js\<close>.
\<close>

type_synonym jschar = "16 word"
type_synonym jsstring = "jschar list"

definition js :: "string \<Rightarrow> jsstring" where
  "js s = map of_char s"

text \<open>
  The handlers read \<^verbatim>\<open>req.body.prompt\<close>, documented as a string
  (\<^verbatim>\<open>@param {string} prompt\<close>); a request without the key reads as \<^verbatim>\<open>undefined\<close>,
  which is \<open>None\<close>. \<^verbatim>\<open>!prompt\<close> holds for \<^verbatim>\<open>undefined\<close> and for the empty string.
\<close>

fun truthy :: "jsstring option \<Rightarrow> bool" where
  "truthy None = False"
| "truthy (Some s) = (s \<noteq> [])"

text \<open>
  A thrown value: \<^verbatim>\<open>new Error(msg)\<close> of the source, or the \<^verbatim>\<open>TypeError\<close> the engine raises
  when a property of \<^verbatim>\<open>undefined\<close> or \<^verbatim>\<open>null\<close> is read. The handlers read only its
  \<^verbatim>\<open>message\<close>; for an engine error that is V8's text.
\<close>

datatype fault = Error jsstring | TypeError jsstring

fun message :: "fault \<Rightarrow> jsstring" where
  "message (Error m) = m"
| "message (TypeError m) = m"

definition cannot_read :: "string \<Rightarrow> string \<Rightarrow> fault" where
  "cannot_read base property =
     TypeError (js ''Cannot read properties of '' @ js base @ js '' (reading '' @ [0x27]
                @ js property @ [0x27] @ js '')'')"

section \<open>String.prototype.trim\<close>

text \<open>
  \<^verbatim>\<open>trim\<close> strips the code units of ECMAScript's WhiteSpace and LineTerminator
  productions from both ends: TAB, VT, FF, ZWNBSP, the Unicode space separators, and
  LF, CR, LS, PS.
\<close>

definition isLineTerminator :: "jschar \<Rightarrow> bool" where
  "isLineTerminator c = (c = 0xA \<or> c = 0xD \<or> c = 0x2028 \<or> c = 0x2029)"

definition isWhiteSpace :: "jschar \<Rightarrow> bool" where
  "isWhiteSpace c =
     (c = 0x9 \<or> c = 0xB \<or> c = 0xC \<or> c = 0x20 \<or> c = 0xA0 \<or> c = 0x1680
      \<or> (0x2000 \<le> c \<and> c \<le> 0x200A)
      \<or> c = 0x202F \<or> c = 0x205F \<or> c = 0x3000 \<or> c = 0xFEFF)"

definition isTrimmed :: "jschar \<Rightarrow> bool" where
  "isTrimmed c = (isWhiteSpace c \<or> isLineTerminator c)"

definition trim :: "jsstring \<Rightarrow> jsstring" where
  "trim s = rev (dropWhile isTrimmed (rev (dropWhile isTrimmed s)))"

section \<open>The regular expression of the reasoning chat\<close>

text \<open>
  The source matches \<^verbatim>\<open>/<think>(.*?)<\/think>(.*)/s\<close> with \<^verbatim>\<open>String.prototype.match\<close>.
  The pattern is a sequence of three kinds of node: a run of literal characters, the
  capture group \<^verbatim>\<open>(.*?)\<close> and the capture group \<^verbatim>\<open>(.*)\<close>. The matcher below is the
  backtracking matcher of ECMAScript restricted to these nodes: a lazy star tries its
  continuation first and consumes one more character only when the continuation fails,
  a greedy star consumes first and falls back to its continuation. \<open>dotAll\<close> is the
  \<^verbatim>\<open>s\<close> flag: without it \<^verbatim>\<open>.\<close> refuses line terminators.
\<close>

datatype node = Chars jsstring | DotStarLazy | DotStarGreedy

record regexp =
  nodes :: "node list"
  dotAll :: bool

definition dot :: "bool \<Rightarrow> jschar \<Rightarrow> bool" where
  "dot dot_all c = (dot_all \<or> \<not> isLineTerminator c)"

fun lazy_star ::
  "(jschar \<Rightarrow> bool) \<Rightarrow> (jsstring \<Rightarrow> jsstring \<Rightarrow> 'a option) \<Rightarrow> jsstring \<Rightarrow> jsstring \<Rightarrow> 'a option"
where
  "lazy_star ok k acc [] = k (rev acc) []"
| "lazy_star ok k acc (x # xs) =
     (case k (rev acc) (x # xs) of
        Some r \<Rightarrow> Some r
      | None \<Rightarrow> if ok x then lazy_star ok k (x # acc) xs else None)"

fun greedy_star ::
  "(jschar \<Rightarrow> bool) \<Rightarrow> (jsstring \<Rightarrow> jsstring \<Rightarrow> 'a option) \<Rightarrow> jsstring \<Rightarrow> jsstring \<Rightarrow> 'a option"
where
  "greedy_star ok k acc [] = k (rev acc) []"
| "greedy_star ok k acc (x # xs) =
     (case (if ok x then greedy_star ok k (x # acc) xs else None) of
        Some r \<Rightarrow> Some r
      | None \<Rightarrow> k (rev acc) (x # xs))"

text \<open>
  \<open>run\<close> matches the nodes at the start of the input and returns the captures in
  order; the pattern has no end anchor, so input may remain when the nodes are used up.
\<close>

fun run :: "bool \<Rightarrow> node list \<Rightarrow> jsstring list \<Rightarrow> jsstring \<Rightarrow> jsstring list option" where
  "run da [] caps xs = Some caps"
| "run da (Chars l # ns) caps xs =
     (if prefix l xs then run da ns caps (drop (length l) xs) else None)"
| "run da (DotStarLazy # ns) caps xs =
     lazy_star (dot da) (\<lambda>g rest. run da ns (caps @ [g]) rest) [] xs"
| "run da (DotStarGreedy # ns) caps xs =
     greedy_star (dot da) (\<lambda>g rest. run da ns (caps @ [g]) rest) [] xs"

text \<open>
  \<^verbatim>\<open>str.match(regex)\<close> for a regex without the \<^verbatim>\<open>g\<close> flag: the pattern has no start
  anchor either, so the match is tried at index 0, 1, ... up to the end of the string,
  and the first index that matches wins. The result is the list of captures
  (\<^verbatim>\<open>match[1]\<close>, \<^verbatim>\<open>match[2]\<close>), or \<open>None\<close> for \<^verbatim>\<open>null\<close>.
\<close>

fun match_from :: "regexp \<Rightarrow> jsstring \<Rightarrow> jsstring list option" where
  "match_from re [] = run (dotAll re) (nodes re) [] []"
| "match_from re (x # xs) =
     (case run (dotAll re) (nodes re) [] (x # xs) of
        Some caps \<Rightarrow> Some caps
      | None \<Rightarrow> match_from re xs)"

definition THINK_OPEN :: jsstring where
  "THINK_OPEN = js ''<think>''"

definition THINK_CLOSE :: jsstring where
  "THINK_CLOSE = js ''</think>''"

definition regex :: regexp where
  "regex = \<lparr>nodes = [Chars THINK_OPEN, DotStarLazy, Chars THINK_CLOSE, DotStarGreedy],
            dotAll = True\<rparr>"

section \<open>Model registry and configuration\<close>

record ai_model =
  LLAMA :: jsstring
  DEEPSEEK :: jsstring
  GUARD :: jsstring
  FLUX :: jsstring

definition AI_MODEL :: ai_model where
  "AI_MODEL = \<lparr>
     LLAMA = js ''meta-llama/Llama-3.3-70B-Instruct-Turbo-Free'',
     DEEPSEEK = js ''deepseek-ai/DeepSeek-R1-Distill-Llama-70B-free'',
     GUARD = js ''meta-llama/Meta-Llama-Guard-3-8B'',
     FLUX = js ''black-forest-labs/FLUX.1-schnell-Free''\<rparr>"

record image_config =
  width :: nat
  height :: nat
  n :: nat

definition IMAGE_CONFIG :: image_config where
  "IMAGE_CONFIG = \<lparr>width = 1024, height = 1024, n = 1\<rparr>"

text \<open>
  The request object of \<^verbatim>\<open>together.images.create\<close>: \<^verbatim>\<open>...IMAGE_CONFIG\<close> spreads the three
  fields of the configuration into it.
\<close>

record image_body = image_config +
  model :: jsstring
  prompt :: "jsstring option"
  steps :: nat

record chat_message =
  role :: jsstring
  content :: "jsstring option"

text \<open>The request object of \<^verbatim>\<open>together.chat.completions.create\<close>; \<open>chat_model\<close> is its
  \<^verbatim>\<open>model\<close> key.\<close>

record chat_body =
  chat_model :: jsstring
  safety_model :: jsstring
  messages :: "chat_message list"

text \<open>
  What the provider answers, as far as the source reads it:
  \<^verbatim>\<open>result.choices[0].message.content\<close> (a string or \<^verbatim>\<open>null\<close>) and \<^verbatim>\<open>result.data[0].url\<close>.
\<close>

record choice =
  message_content :: "jsstring option"

record chat_completion =
  choices :: "choice list"

record image_data =
  url :: jsstring

record image_response =
  data :: "image_data list"

text \<open>
  What a handler depends on outside its arguments: the environment variable
  \<^verbatim>\<open>process.env.CHAT_SYSTEM_MESSAGE\<close> and the two remote operations of the \<^verbatim>\<open>together\<close>
  client, each of which either throws or resolves. A handler issues at most one remote
  call, so a function of the request describes the provider for one invocation.
\<close>

record runtime =
  env_CHAT_SYSTEM_MESSAGE :: "jsstring option"
  chat_completions_create :: "chat_body \<Rightarrow> fault + chat_completion"
  images_create :: "image_body \<Rightarrow> fault + image_response"

text \<open>The remote calls a handler has issued, in order.\<close>

datatype remote_call = ChatCall chat_body | ImageCall image_body

definition DEFAULT_SYSTEM_MESSAGE :: jsstring where
  "DEFAULT_SYSTEM_MESSAGE =
     [0xB9C8, 0xD06C, 0xB2E4, 0xC6B4, 0xC744, 0x20, 0xC0AC, 0xC6A9, 0xD558, 0xC9C0, 0x20,
      0xB9D0, 0xACE0, 0x2C, 0x20, 0xD55C, 0xAD6D, 0xC5B4, 0xB9CC, 0x20, 0xC0AC, 0xC6A9,
      0xD558, 0xACE0, 0x20, 0xD55C, 0xAD6D, 0xC5B4, 0x20, 0xAE00, 0xC790, 0xB9CC, 0x20,
      0xC0AC, 0xC6A9, 0xD574, 0x2E, 0x20, 0xD639, 0xC2DC, 0xB77C, 0xB3C4, 0x20, 0xC601,
      0xC5B4, 0xB85C, 0x20, 0xB2F5, 0xBCC0, 0xD558, 0xBA74, 0x20, 0xB2E4, 0xC2DC, 0x20,
      0xD55C, 0xBC88, 0x20, 0xD55C, 0xAD6D, 0xC5B4, 0xC640, 0x20, 0xD55C, 0xAE00, 0xC744,
      0x20, 0xC0AC, 0xC6A9, 0xD558, 0xB294, 0xC9C0, 0x20, 0xD655, 0xC778, 0xD558, 0xACE0,
      0x2C, 0x20, 0xADF8, 0xB807, 0xC9C0, 0x20, 0xC54A, 0xB2E4, 0xBA74, 0x20, 0xC0AD,
      0xC81C, 0xD574, 0x2E]"

text \<open>\<^verbatim>\<open>process.env.CHAT_SYSTEM_MESSAGE ?? `...`\<close>: only an unset variable takes the
  default, an empty one stays empty.\<close>

definition CHAT_SYSTEM_MESSAGE :: "runtime \<Rightarrow> jsstring" where
  "CHAT_SYSTEM_MESSAGE rt =
     (case env_CHAT_SYSTEM_MESSAGE rt of Some s \<Rightarrow> s | None \<Rightarrow> DEFAULT_SYSTEM_MESSAGE)"

text \<open>The three Korean messages of the source, as UTF-16 code units: the one thrown for
  a missing prompt, the one thrown after a failed chat call, and the one replied when the
  answer has no tags.\<close>

definition PROMPT_REQUIRED :: jsstring where
  "PROMPT_REQUIRED =
     [0xD504, 0xB86C, 0xD504, 0xD2B8, 0xAC00, 0x20, 0xD544, 0xC694, 0xD569, 0xB2C8, 0xB2E4,
      0x21]"

definition CALL_FAILED :: jsstring where
  "CALL_FAILED =
     [0x41, 0x49, 0x20, 0xBAA8, 0xB378, 0x20, 0xD638, 0xCD9C, 0x20, 0xC911, 0x20, 0xC624,
      0xB958, 0xAC00, 0x20, 0xBC1C, 0xC0DD, 0xD588, 0xC2B5, 0xB2C8, 0xB2E4, 0x2E]"

definition BAD_FORMAT :: jsstring where
  "BAD_FORMAT =
     [0x41, 0x49, 0x20, 0xBAA8, 0xB378, 0x20, 0xC751, 0xB2F5, 0x20, 0xD615, 0xC2DD, 0xC774,
      0x20, 0xC798, 0xBABB, 0xB418, 0xC5C8, 0xC2B5, 0xB2C8, 0xB2E4, 0x2E]"

section \<open>Inference client adapter\<close>

definition getStepsFromModel :: "jsstring \<Rightarrow> fault + nat" where
  "getStepsFromModel m =
     (if m = FLUX AI_MODEL then Inr 4 else Inl (Error (js ''Not implemented'')))"

text \<open>
  \<open>createImage\<close> builds the request first; \<open>getStepsFromModel\<close> runs while the object
  literal is evaluated, so its throw leaves no call behind. \<^verbatim>\<open>result.data[0].url\<close> on an
  empty array reads a property of \<^verbatim>\<open>undefined\<close>. The function returns what it resolves
  or throws, and the calls it made.
\<close>

definition createImage ::
  "runtime \<Rightarrow> jsstring \<Rightarrow> jsstring option \<Rightarrow> (fault + jsstring) \<times> remote_call list"
where
  "createImage rt m p =
     (case getStepsFromModel m of
        Inl error \<Rightarrow> (Inl error, [])
      | Inr s \<Rightarrow>
          (let body = \<lparr>width = width IMAGE_CONFIG, height = height IMAGE_CONFIG,
                       n = n IMAGE_CONFIG, model = m, prompt = p, steps = s\<rparr>
           in case images_create rt body of
                Inl error \<Rightarrow> (Inl error, [ImageCall body])
              | Inr result \<Rightarrow>
                  (case data result of
                     [] \<Rightarrow> (Inl (cannot_read ''undefined'' ''url''), [ImageCall body])
                   | d # ds \<Rightarrow> (Inr (url d), [ImageCall body]))))"

text \<open>
  \<open>chatWithModel\<close>: the prompt check comes before the \<^verbatim>\<open>try\<close>; inside it, the remote
  call and the read of the first choice; the \<^verbatim>\<open>catch\<close> replaces whatever was thrown there
  by one fixed error.
\<close>

definition chat_request :: "runtime \<Rightarrow> jsstring \<Rightarrow> jsstring option \<Rightarrow> chat_body" where
  "chat_request rt m p =
     \<lparr>chat_model = m,
      safety_model = GUARD AI_MODEL,
      messages = [\<lparr>role = js ''system'', content = Some (CHAT_SYSTEM_MESSAGE rt)\<rparr>,
                  \<lparr>role = js ''user'', content = p\<rparr>]\<rparr>"

definition chatWithModel ::
  "runtime \<Rightarrow> jsstring \<Rightarrow> jsstring option \<Rightarrow> (fault + jsstring option) \<times> remote_call list"
where
  "chatWithModel rt m p =
     (if \<not> truthy p then (Inl (Error PROMPT_REQUIRED), [])
      else
        (let body = chat_request rt m p;
             tried =
               (case chat_completions_create rt body of
                  Inl error \<Rightarrow> Inl error
                | Inr result \<Rightarrow>
                    (case choices result of
                       [] \<Rightarrow> Inl (cannot_read ''undefined'' ''message'')
                     | c # cs \<Rightarrow> Inr (message_content c)))
         in case tried of
              Inl error \<Rightarrow> (Inl (Error CALL_FAILED), [ChatCall body])
            | Inr answer \<Rightarrow> (Inr answer, [ChatCall body])))"

section \<open>Request router\<close>

datatype reply_body =
    Answer "jsstring option"
  | ThinkSay jsstring jsstring
  | Result jsstring
  | ErrorBody jsstring

record reply =
  status :: nat
  body :: reply_body

text \<open>\<^verbatim>\<open>res.json(b)\<close> replies with status 200; every \<^verbatim>\<open>catch\<close> of a handler replies
  \<^verbatim>\<open>res.status(500).json({ error: error.message })\<close>.\<close>

definition json :: "reply_body \<Rightarrow> reply" where
  "json b = \<lparr>status = 200, body = b\<rparr>"

definition caught :: "fault \<Rightarrow> reply" where
  "caught error = \<lparr>status = 500, body = ErrorBody (message error)\<rparr>"

definition post_llama :: "runtime \<Rightarrow> jsstring option \<Rightarrow> reply \<times> remote_call list" where
  "post_llama rt p =
     (case chatWithModel rt (LLAMA AI_MODEL) p of
        (Inl error, calls) \<Rightarrow> (caught error, calls)
      | (Inr answer, calls) \<Rightarrow> (json (Answer answer), calls))"

text \<open>
  The part of the \<^verbatim>\<open>/deepseek\<close> handler after the answer has arrived. \<^verbatim>\<open>answer.match\<close> on
  \<^verbatim>\<open>null\<close> throws, as does \<^verbatim>\<open>trim\<close> on a capture that is not there; both land in the
  handler's \<^verbatim>\<open>catch\<close>.
\<close>

definition shape :: "jsstring option \<Rightarrow> fault + reply" where
  "shape answer =
     (case answer of
        None \<Rightarrow> Inl (cannot_read ''null'' ''match'')
      | Some text \<Rightarrow>
          (case match_from regex text of
             Some [rawThink, rawSay] \<Rightarrow> Inr (json (ThinkSay (trim rawThink) (trim rawSay)))
           | Some caps \<Rightarrow> Inl (cannot_read ''undefined'' ''trim'')
           | None \<Rightarrow> Inr \<lparr>status = 400, body = ErrorBody BAD_FORMAT\<rparr>))"

definition post_deepseek :: "runtime \<Rightarrow> jsstring option \<Rightarrow> reply \<times> remote_call list" where
  "post_deepseek rt p =
     (case chatWithModel rt (DEEPSEEK AI_MODEL) p of
        (Inl error, calls) \<Rightarrow> (caught error, calls)
      | (Inr answer, calls) \<Rightarrow>
          (case shape answer of
             Inl error \<Rightarrow> (caught error, calls)
           | Inr r \<Rightarrow> (r, calls)))"

definition post_flux :: "runtime \<Rightarrow> jsstring option \<Rightarrow> reply \<times> remote_call list" where
  "post_flux rt p =
     (case createImage rt (FLUX AI_MODEL) p of
        (Inl error, calls) \<Rightarrow> (caught error, calls)
      | (Inr result, calls) \<Rightarrow> (json (Result result), calls))"

text \<open>The client-error class of HTTP statuses.\<close>

definition client_error :: "nat \<Rightarrow> bool" where
  "client_error s = (400 \<le> s \<and> s < 500)"

text \<open>A provider that gives the same two answers to every request, for the concrete
  runs below.\<close>

definition fixed_runtime :: "fault + chat_completion \<Rightarrow> fault + image_response \<Rightarrow> runtime" where
  "fixed_runtime chat_result image_result =
     \<lparr>env_CHAT_SYSTEM_MESSAGE = None,
      chat_completions_create = (\<lambda>b. chat_result),
      images_create = (\<lambda>b. image_result)\<rparr>"

definition answering :: "string \<Rightarrow> fault + chat_completion" where
  "answering s = Inr \<lparr>choices = [\<lparr>message_content = Some (js s)\<rparr>]\<rparr>"

section \<open>Properties of the matcher\<close>

lemma dot_all [simp]: "dot True = (\<lambda>c. True)"
  by (simp add: dot_def fun_eq_iff)

lemma prefix_overlap:
  assumes "prefix p (w @ p @ t)" and "w \<noteq> []"
  shows "prefix p (w @ butlast p)"
proof (cases "p = []")
  case True
  then show ?thesis by simp
next
  case False
  then have split: "w @ p @ t = (w @ butlast p) @ (last p # t)"
    by simp
  have len: "length p \<le> length (w @ butlast p)"
    using assms(2) False by (cases w) auto
  from assms(1) have "p = take (length p) (w @ p @ t)"
    by (metis append_eq_conv_conj prefix_def)
  also have "\<dots> = take (length p) (w @ butlast p)"
    using len by (simp only: split take_append) simp
  finally show ?thesis
    by (metis take_is_prefix)
qed

lemma prefix_butlast_extend:
  assumes "prefix p (w @ butlast p)"
  shows "prefix p (w @ p @ t)"
proof -
  have "prefix (butlast p) p"
    by (simp add: butlast_conv_take take_is_prefix)
  then have "prefix (butlast p) (p @ t)"
    by (simp add: prefix_prefix)
  then have "prefix (w @ butlast p) (w @ p @ t)"
    by simp
  with assms show ?thesis
    using prefix_order.trans by blast
qed

lemma lazy_star_first:
  assumes "k (rev acc @ u) v = Some r"
    and "\<And>u' w. u = u' @ w \<Longrightarrow> w \<noteq> [] \<Longrightarrow> k (rev acc @ u') (w @ v) = None"
    and "\<And>c. c \<in> set u \<Longrightarrow> ok c"
  shows "lazy_star ok k acc (u @ v) = Some r"
  using assms
proof (induction u arbitrary: acc)
  case Nil
  then show ?case by (cases v) simp_all
next
  case (Cons a u)
  have none: "k (rev acc) (a # u @ v) = None"
    using Cons.prems(2) [of "[]" "a # u"] by simp
  have step: "lazy_star ok k (a # acc) (u @ v) = Some r"
  proof (rule Cons.IH)
    show "k (rev (a # acc) @ u) v = Some r"
      using Cons.prems(1) by simp
    show "k (rev (a # acc) @ u') (w @ v) = None" if "u = u' @ w" "w \<noteq> []" for u' w
      using Cons.prems(2) [of "a # u'" w] that by simp
    show "ok c" if "c \<in> set u" for c
      using Cons.prems(3) that by simp
  qed
  show ?case
    using none step Cons.prems(3) by simp
qed

lemma lazy_star_SomeD:
  "lazy_star ok k acc xs = Some r \<Longrightarrow> \<exists>u v. xs = u @ v \<and> k (rev acc @ u) v = Some r"
proof (induction xs arbitrary: acc)
  case Nil
  then show ?case by simp
next
  case (Cons x xs)
  show ?case
  proof (cases "k (rev acc) (x # xs)")
    case (Some r')
    with Cons.prems have "k (rev acc @ []) (x # xs) = Some r" by simp
    then show ?thesis by (metis append_Nil)
  next
    case None
    with Cons.prems have "lazy_star ok k (x # acc) xs = Some r"
      by (simp split: if_splits)
    from Cons.IH [OF this] obtain u v where "xs = u @ v" "k (rev (x # acc) @ u) v = Some r"
      by blast
    then have "x # xs = (x # u) @ v \<and> k (rev acc @ (x # u)) v = Some r"
      by simp
    then show ?thesis by blast
  qed
qed

lemma greedy_star_all:
  "greedy_star (\<lambda>c. True) (\<lambda>g rest. Some (f g)) acc xs = Some (f (rev acc @ xs))"
  by (induction xs arbitrary: acc) simp_all

lemma run_Nil_fun: "run da [] caps = (\<lambda>xs. Some caps)"
  by (simp add: fun_eq_iff)

lemma run_tail:
  "run True [Chars cls, DotStarGreedy] [g] =
     (\<lambda>rest. if prefix cls rest then Some [g, drop (length cls) rest] else None)"
  by (rule ext) (simp add: run_Nil_fun greedy_star_all)

lemma run_think:
  "run True [Chars opn, DotStarLazy, Chars cls, DotStarGreedy] [] xs =
     (if prefix opn xs
      then lazy_star (\<lambda>c. True)
             (\<lambda>g rest. if prefix cls rest then Some [g, drop (length cls) rest] else None)
             [] (drop (length opn) xs)
      else None)"
  by (simp add: run_tail)

lemma run_complete:
  assumes "\<not> sublist cls (inner @ butlast cls)"
  shows "run True [Chars opn, DotStarLazy, Chars cls, DotStarGreedy] [] (opn @ inner @ cls @ trail)
           = Some [inner, trail]"
proof -
  let ?k = "\<lambda>g rest. if prefix cls rest then Some [g, drop (length cls) rest] else None"
  have "lazy_star (\<lambda>c. True) ?k [] (inner @ cls @ trail) = Some [inner, trail]"
  proof (rule lazy_star_first)
    show "?k (rev [] @ inner) (cls @ trail) = Some [inner, trail]"
      by simp
    show "?k (rev [] @ u') (w @ cls @ trail) = None"
      if "inner = u' @ w" "w \<noteq> []" for u' w
    proof -
      have "\<not> prefix cls (w @ cls @ trail)"
      proof
        assume "prefix cls (w @ cls @ trail)"
        then have "prefix cls (w @ butlast cls)"
          using that(2) by (rule prefix_overlap)
        then have "sublist cls (u' @ w @ butlast cls)"
          by (metis prefix_imp_sublist sublist_append_leftI sublist_order.order.trans)
        with assms that(1) show False by simp
      qed
      then show ?thesis by simp
    qed
  qed simp
  then show ?thesis unfolding run_think by simp
qed

lemma run_SomeD:
  assumes "run True [Chars opn, DotStarLazy, Chars cls, DotStarGreedy] [] xs = Some caps"
  shows "\<exists>inner trail. xs = opn @ inner @ cls @ trail \<and> caps = [inner, trail]"
proof -
  let ?k = "\<lambda>g rest. if prefix cls rest then Some [g, drop (length cls) rest] else None"
  from assms have pre: "prefix opn xs"
    and lz: "lazy_star (\<lambda>c. True) ?k [] (drop (length opn) xs) = Some caps"
    unfolding run_think by (simp_all split: if_splits)
  from lazy_star_SomeD [OF lz] obtain u v
    where uv: "drop (length opn) xs = u @ v" and k: "?k (rev [] @ u) v = Some caps"
    by blast
  from k have "prefix cls v" and caps: "caps = [u, drop (length cls) v]"
    by (simp_all split: if_splits)
  then have "v = cls @ drop (length cls) v"
    by (metis append_eq_conv_conj prefix_def)
  moreover from pre have "xs = opn @ drop (length opn) xs"
    by (metis append_eq_conv_conj prefix_def)
  ultimately have "xs = opn @ u @ cls @ drop (length cls) v"
    using uv by simp
  with caps show ?thesis by blast
qed

lemma match_from_unfold:
  "match_from re xs =
     (case run (dotAll re) (nodes re) [] xs of
        Some caps \<Rightarrow> Some caps
      | None \<Rightarrow> (case xs of [] \<Rightarrow> None | x # xs' \<Rightarrow> match_from re xs'))"
  by (cases xs) (simp_all split: option.splits)

lemma run_no_prefix:
  "\<not> prefix opn xs \<Longrightarrow> run da (Chars opn # ns) caps xs = None"
  by simp

lemma match_from_leftmost:
  assumes "\<not> sublist opn (pre @ butlast opn)"
    and "nodes re = Chars opn # ns"
  shows "match_from re (pre @ opn @ rest) = match_from re (opn @ rest)"
  using assms(1)
proof (induction pre)
  case Nil
  then show ?case by simp
next
  case (Cons p pre)
  have "\<not> prefix opn ((p # pre) @ opn @ rest)"
  proof
    assume "prefix opn ((p # pre) @ opn @ rest)"
    then have "prefix opn ((p # pre) @ butlast opn)"
      by (rule prefix_overlap) simp
    with Cons.prems show False
      using prefix_imp_sublist by blast
  qed
  then have "run (dotAll re) (nodes re) [] (p # pre @ opn @ rest) = None"
    using assms(2) by simp
  moreover have "\<not> sublist opn (pre @ butlast opn)"
    using Cons.prems by (simp add: sublist_Cons_right)
  ultimately show ?case
    using Cons.IH by simp
qed

lemma match_from_SomeD:
  assumes "match_from re xs = Some caps"
  shows "\<exists>pre rest. xs = pre @ rest \<and> run (dotAll re) (nodes re) [] rest = Some caps"
  using assms
proof (induction xs)
  case Nil
  then show ?case by simp
next
  case (Cons x xs)
  show ?case
  proof (cases "run (dotAll re) (nodes re) [] (x # xs)")
    case None
    with Cons.prems have "match_from re xs = Some caps" by simp
    from Cons.IH [OF this] obtain pre rest
      where "xs = pre @ rest" "run (dotAll re) (nodes re) [] rest = Some caps" by blast
    then have "x # xs = (x # pre) @ rest \<and> run (dotAll re) (nodes re) [] rest = Some caps"
      by simp
    then show ?thesis by blast
  next
    case (Some c)
    with Cons.prems have "x # xs = [] @ (x # xs) \<and> run (dotAll re) (nodes re) [] (x # xs) = Some caps"
      by simp
    then show ?thesis by blast
  qed
qed

lemma not_sublist_butlast: "p \<noteq> [] \<Longrightarrow> \<not> sublist p (butlast p)"
  by (cases p rule: rev_cases) (auto dest: sublist_length_le)

lemma first_occurrence:
  assumes "sublist p xs" and "p \<noteq> []"
  shows "\<exists>a b. xs = a @ p @ b \<and> \<not> sublist p (a @ butlast p)"
  using assms(1)
proof (induction xs)
  case Nil
  with assms(2) show ?case by simp
next
  case (Cons x xs)
  show ?case
  proof (cases "prefix p (x # xs)")
    case True
    then obtain b where "x # xs = [] @ p @ b"
      by (auto simp: prefix_def)
    moreover have "\<not> sublist p ([] @ butlast p)"
      using assms(2) by (simp add: not_sublist_butlast)
    ultimately show ?thesis by blast
  next
    case False
    with Cons.prems have "sublist p xs"
      by (simp add: sublist_Cons_right)
    from Cons.IH [OF this] obtain a b where ab: "xs = a @ p @ b" "\<not> sublist p (a @ butlast p)"
      by blast
    have "\<not> prefix p ((x # a) @ butlast p)"
      using False ab(1) prefix_butlast_extend [of p "x # a" b] by auto
    with ab(2) have "\<not> sublist p ((x # a) @ butlast p)"
      by (simp add: sublist_Cons_right)
    moreover have "x # xs = (x # a) @ p @ b"
      using ab(1) by simp
    ultimately show ?thesis by blast
  qed
qed

lemma canonical_split:
  assumes xs: "xs = pre @ opn @ inner @ cls @ trail"
    and ne: "opn \<noteq> []" "cls \<noteq> []"
  shows "\<exists>pre' inner' trail'. xs = pre' @ opn @ inner' @ cls @ trail'
           \<and> \<not> sublist opn (pre' @ butlast opn) \<and> \<not> sublist cls (inner' @ butlast cls)"
proof -
  have "sublist opn xs"
    using xs by simp
  from first_occurrence [OF this ne(1)] obtain a b
    where ab: "xs = a @ opn @ b" "\<not> sublist opn (a @ butlast opn)" by blast
  let ?rest = "inner @ cls @ trail"
  from ab(1) xs have "a @ (opn @ b) = pre @ (opn @ ?rest)"
    by simp
  then obtain us where
    "(a = pre @ us \<and> us @ opn @ b = opn @ ?rest) \<or> (a @ us = pre \<and> opn @ b = us @ opn @ ?rest)"
    using append_eq_append_conv2 [THEN iffD1] by blast
  then have "sublist cls b"
  proof
    assume c1: "a = pre @ us \<and> us @ opn @ b = opn @ ?rest"
    show ?thesis
    proof (cases "us = []")
      case True
      with c1 show ?thesis by simp
    next
      case False
      from c1 have "prefix opn (us @ opn @ b)"
        by simp
      then have "prefix opn (us @ butlast opn)"
        using False by (rule prefix_overlap)
      then have "sublist opn (pre @ us @ butlast opn)"
        by (metis prefix_imp_sublist sublist_append_leftI sublist_order.order.trans)
      with ab(2) c1 show ?thesis by simp
    qed
  next
    assume c2: "a @ us = pre \<and> opn @ b = us @ opn @ ?rest"
    have "b = drop (length opn) (opn @ b)"
      by simp
    also have "\<dots> = drop (length opn) ((us @ opn @ inner) @ (cls @ trail))"
      using c2 by simp
    also have "\<dots> = drop (length opn) (us @ opn @ inner) @ cls @ trail"
      by (simp only: drop_append) simp
    finally show ?thesis
      by (metis sublist_appendI)
  qed
  from first_occurrence [OF this ne(2)] obtain i t
    where it: "b = i @ cls @ t" "\<not> sublist cls (i @ butlast cls)" by blast
  with ab show ?thesis by blast
qed

lemma tags_nonempty: "THINK_OPEN \<noteq> []" "THINK_CLOSE \<noteq> []"
  by (simp_all add: THINK_OPEN_def THINK_CLOSE_def js_def)

lemma regex_match_canonical:
  assumes "\<not> sublist THINK_OPEN (pre @ butlast THINK_OPEN)"
    and "\<not> sublist THINK_CLOSE (inner @ butlast THINK_CLOSE)"
  shows "match_from regex (pre @ THINK_OPEN @ inner @ THINK_CLOSE @ trail) = Some [inner, trail]"
proof -
  have "match_from regex (pre @ THINK_OPEN @ inner @ THINK_CLOSE @ trail)
          = match_from regex (THINK_OPEN @ inner @ THINK_CLOSE @ trail)"
    using assms(1) by (rule match_from_leftmost) (simp add: regex_def)
  also have "\<dots> = Some [inner, trail]"
    using run_complete [OF assms(2), of THINK_OPEN trail]
    by (subst match_from_unfold) (simp add: regex_def)
  finally show ?thesis .
qed

lemma regex_match_SomeD:
  assumes "match_from regex raw = Some caps"
  shows "\<exists>pre inner trail. raw = pre @ THINK_OPEN @ inner @ THINK_CLOSE @ trail
           \<and> caps = [inner, trail]"
proof -
  from match_from_SomeD [OF assms] obtain pre rest
    where raw: "raw = pre @ rest"
      and "run True [Chars THINK_OPEN, DotStarLazy, Chars THINK_CLOSE, DotStarGreedy] [] rest
             = Some caps"
    by (auto simp: regex_def)
  from run_SomeD [OF this(2)] raw show ?thesis
    by blast
qed

lemma regex_match_None:
  assumes "\<not> sublist THINK_OPEN raw"
  shows "match_from regex raw = None"
proof (cases "match_from regex raw")
  case None
  then show ?thesis .
next
  case (Some caps)
  from regex_match_SomeD [OF this] assms show ?thesis
    by auto
qed

subsection \<open>What the handlers reply once the provider has answered\<close>

lemma chatWithModel_falsy:
  "\<not> truthy p \<Longrightarrow> chatWithModel rt m p = (Inl (Error PROMPT_REQUIRED), [])"
  by (simp add: chatWithModel_def)

lemma chatWithModel_thrown:
  assumes "truthy p" and "chat_completions_create rt (chat_request rt m p) = Inl f"
  shows "chatWithModel rt m p = (Inl (Error CALL_FAILED), [ChatCall (chat_request rt m p)])"
  using assms by (simp add: chatWithModel_def)

lemma chatWithModel_no_choice:
  assumes "truthy p" and "chat_completions_create rt (chat_request rt m p) = Inr r"
    and "choices r = []"
  shows "chatWithModel rt m p = (Inl (Error CALL_FAILED), [ChatCall (chat_request rt m p)])"
  using assms by (simp add: chatWithModel_def cannot_read_def)

lemma chatWithModel_answer:
  assumes "truthy p" and "chat_completions_create rt (chat_request rt m p) = Inr r"
    and "choices r = c # cs"
  shows "chatWithModel rt m p = (Inr (message_content c), [ChatCall (chat_request rt m p)])"
  using assms by (simp add: chatWithModel_def)

lemma chatWithModel_calls:
  "snd (chatWithModel rt m p) = (if truthy p then [ChatCall (chat_request rt m p)] else [])"
  by (simp add: chatWithModel_def Let_def split: sum.splits list.splits)

lemma shape_match:
  "match_from regex text = Some [a, b] \<Longrightarrow>
     shape (Some text) = Inr \<lparr>status = 200, body = ThinkSay (trim a) (trim b)\<rparr>"
  by (simp add: shape_def json_def)

lemma shape_no_match:
  "match_from regex text = None \<Longrightarrow>
     shape (Some text) = Inr \<lparr>status = 400, body = ErrorBody BAD_FORMAT\<rparr>"
  by (simp add: shape_def)

lemma post_deepseek_answer:
  assumes "truthy p"
    and "chat_completions_create rt (chat_request rt (DEEPSEEK AI_MODEL) p) = Inr r"
    and "choices r = c # cs"
    and "shape (message_content c) = Inr reply"
  shows "post_deepseek rt p = (reply, [ChatCall (chat_request rt (DEEPSEEK AI_MODEL) p)])"
  using chatWithModel_answer [OF assms(1-3)] assms(4) by (simp add: post_deepseek_def)

lemma image_request_sent:
  "snd (createImage rt (FLUX AI_MODEL) p) =
     [ImageCall \<lparr>width = 1024, height = 1024, n = 1, model = FLUX AI_MODEL, prompt = p,
                 steps = 4\<rparr>]"
  by (simp add: createImage_def getStepsFromModel_def IMAGE_CONFIG_def Let_def
      split: sum.splits list.splits)

lemma createImage_result:
  "fst (createImage rt (FLUX AI_MODEL) p) =
     (case images_create rt \<lparr>width = 1024, height = 1024, n = 1, model = FLUX AI_MODEL,
                             prompt = p, steps = 4\<rparr> of
        Inl f \<Rightarrow> Inl f
      | Inr r \<Rightarrow> (case data r of
                    [] \<Rightarrow> Inl (cannot_read ''undefined'' ''url'')
                  | d # ds \<Rightarrow> Inr (url d)))"
  by (simp add: createImage_def getStepsFromModel_def IMAGE_CONFIG_def Let_def
      split: sum.splits list.splits)

lemma post_flux_reply:
  "post_flux rt p =
     (case fst (createImage rt (FLUX AI_MODEL) p) of
        Inl f \<Rightarrow> \<lparr>status = 500, body = ErrorBody (message f)\<rparr>
      | Inr u \<Rightarrow> \<lparr>status = 200, body = Result u\<rparr>,
      snd (createImage rt (FLUX AI_MODEL) p))"
  by (simp add: post_flux_def caught_def json_def split: prod.splits sum.splits)

lemma js_eval:
  "js [] = []"
  "js (c # cs) = of_char c # js cs"
  by (simp_all add: js_def)

section \<open>The claims\<close>

text \<open>
  C1. When the raw answer holds a \<^verbatim>\<open><think>\<close> ... \<^verbatim>\<open></think>\<close> segment followed by trailing
  text, the reply of the reasoning chat has the trimmed inner content as \<^verbatim>\<open>think\<close> and the
  trimmed trailing content as \<^verbatim>\<open>say\<close>. The segment is the one the pattern finds: it
  starts at the first start tag of the text and ends at the first end tag after it.
\<close>

theorem shape_think_say:
  assumes "\<not> sublist THINK_OPEN (pre @ butlast THINK_OPEN)"
    and "\<not> sublist THINK_CLOSE (inner @ butlast THINK_CLOSE)"
    and "truthy p"
    and "chat_completions_create rt (chat_request rt (DEEPSEEK AI_MODEL) p) = Inr r"
    and "choices r = c # cs"
    and "message_content c = Some (pre @ THINK_OPEN @ inner @ THINK_CLOSE @ trail)"
  shows "shape (Some (pre @ THINK_OPEN @ inner @ THINK_CLOSE @ trail))
           = Inr \<lparr>status = 200, body = ThinkSay (trim inner) (trim trail)\<rparr>
         \<and> fst (post_deepseek rt p) = \<lparr>status = 200, body = ThinkSay (trim inner) (trim trail)\<rparr>"
proof -
  have s: "shape (Some (pre @ THINK_OPEN @ inner @ THINK_CLOSE @ trail))
             = Inr \<lparr>status = 200, body = ThinkSay (trim inner) (trim trail)\<rparr>"
    using regex_match_canonical [OF assms(1,2)] by (rule shape_match)
  with assms(6) have "shape (message_content c)
             = Inr \<lparr>status = 200, body = ThinkSay (trim inner) (trim trail)\<rparr>"
    by simp
  from post_deepseek_answer [OF assms(3-5) this] s show ?thesis
    by simp
qed

theorem shape_think_say_example:
  "shape (Some (js ''<think> step one </think>  final answer ''))
     = Inr \<lparr>status = 200, body = ThinkSay (js ''step one'') (js ''final answer'')\<rparr>
   \<and> fst (post_deepseek
            (fixed_runtime (answering ''<think> step one </think>  final answer '')
               (Inl (Error [])))
            (Some (js ''hello'')))
     = \<lparr>status = 200, body = ThinkSay (js ''step one'') (js ''final answer'')\<rparr>"
proof -
  let ?rt = "fixed_runtime (answering ''<think> step one </think>  final answer '')
               (Inl (Error []))"
  let ?c = "\<lparr>message_content = Some (js ''<think> step one </think>  final answer '')\<rparr>"
  have raw: "js ''<think> step one </think>  final answer ''
               = [] @ THINK_OPEN @ js '' step one '' @ THINK_CLOSE @ js ''  final answer ''"
    by (simp add: THINK_OPEN_def THINK_CLOSE_def js_eval)
  have h1: "\<not> sublist THINK_OPEN ([] @ butlast THINK_OPEN)"
    by (simp add: THINK_OPEN_def js_eval sublist_code)
  have h2: "\<not> sublist THINK_CLOSE (js '' step one '' @ butlast THINK_CLOSE)"
    by (simp add: THINK_CLOSE_def js_eval sublist_code)
  have h3: "truthy (Some (js ''hello''))"
    by (simp add: js_eval)
  have h4: "chat_completions_create ?rt (chat_request ?rt (DEEPSEEK AI_MODEL) (Some (js ''hello'')))
              = Inr \<lparr>choices = [?c]\<rparr>"
    by (simp add: fixed_runtime_def answering_def)
  have h5: "choices \<lparr>choices = [?c]\<rparr> = ?c # []"
    by simp
  have h6: "message_content ?c
              = Some ([] @ THINK_OPEN @ js '' step one '' @ THINK_CLOSE @ js ''  final answer '')"
    by (simp only: raw [symmetric]) simp
  have t1: "trim (js '' step one '') = js ''step one''"
    by (simp add: trim_def isTrimmed_def isWhiteSpace_def isLineTerminator_def js_eval)
  have t2: "trim (js ''  final answer '') = js ''final answer''"
    by (simp add: trim_def isTrimmed_def isWhiteSpace_def isLineTerminator_def js_eval)
  from shape_think_say [OF h1 h2 h3 h4 h5 h6] show ?thesis
    by (simp only: raw [symmetric] t1 t2)
qed

text \<open>
  C2, as the code has it. The pattern has no start anchor: a match is produced exactly
  when the text holds a start tag with an end tag somewhere after it, wherever the start
  tag stands. The match starts at the first start tag; the first group is what lies
  between it and the first end tag after it (any characters, line terminators included);
  the second group is all the rest of the text.
\<close>

theorem match_from_regex_iff:
  "match_from regex raw = Some caps \<longleftrightarrow>
     (\<exists>pre inner trail. raw = pre @ THINK_OPEN @ inner @ THINK_CLOSE @ trail
        \<and> \<not> sublist THINK_OPEN (pre @ butlast THINK_OPEN)
        \<and> \<not> sublist THINK_CLOSE (inner @ butlast THINK_CLOSE)
        \<and> caps = [inner, trail])"
proof
  assume m: "match_from regex raw = Some caps"
  from regex_match_SomeD [OF m] obtain pre inner trail
    where "raw = pre @ THINK_OPEN @ inner @ THINK_CLOSE @ trail" by blast
  from canonical_split [OF this tags_nonempty] obtain pre' inner' trail'
    where c: "raw = pre' @ THINK_OPEN @ inner' @ THINK_CLOSE @ trail'"
      "\<not> sublist THINK_OPEN (pre' @ butlast THINK_OPEN)"
      "\<not> sublist THINK_CLOSE (inner' @ butlast THINK_CLOSE)"
    by blast
  from regex_match_canonical [OF c(2,3), of trail'] c(1) m have "caps = [inner', trail']"
    by simp
  with c show "\<exists>pre inner trail. raw = pre @ THINK_OPEN @ inner @ THINK_CLOSE @ trail
        \<and> \<not> sublist THINK_OPEN (pre @ butlast THINK_OPEN)
        \<and> \<not> sublist THINK_CLOSE (inner @ butlast THINK_CLOSE)
        \<and> caps = [inner, trail]"
    by blast
next
  assume "\<exists>pre inner trail. raw = pre @ THINK_OPEN @ inner @ THINK_CLOSE @ trail
        \<and> \<not> sublist THINK_OPEN (pre @ butlast THINK_OPEN)
        \<and> \<not> sublist THINK_CLOSE (inner @ butlast THINK_CLOSE)
        \<and> caps = [inner, trail]"
  then show "match_from regex raw = Some caps"
    using regex_match_canonical by blast
qed

theorem match_from_regex_iff_witness:
  "match_from regex (js ''Sure. <think>a\<newline>b</think>c</think>d'')
     = Some [js ''a\<newline>b'', js ''c</think>d'']"
proof -
  have "js ''Sure. <think>a\<newline>b</think>c</think>d''
          = js ''Sure. '' @ THINK_OPEN @ js ''a\<newline>b'' @ THINK_CLOSE @ js ''c</think>d''
        \<and> \<not> sublist THINK_OPEN (js ''Sure. '' @ butlast THINK_OPEN)
        \<and> \<not> sublist THINK_CLOSE (js ''a\<newline>b'' @ butlast THINK_CLOSE)
        \<and> [js ''a\<newline>b'', js ''c</think>d''] = [js ''a\<newline>b'', js ''c</think>d'']"
    by (simp add: THINK_OPEN_def THINK_CLOSE_def js_eval sublist_code)
  then show ?thesis
    using match_from_regex_iff
      [of "js ''Sure. <think>a\<newline>b</think>c</think>d''"
          "[js ''a\<newline>b'', js ''c</think>d'']"]
    by blast
qed

text \<open>The claim as written, refuted: a text that does not begin with the start tag
  matches all the same.\<close>

theorem unanchored_match_counterexample:
  "\<not> prefix THINK_OPEN (js ''Sure. <think>a</think>b'')
   \<and> match_from regex (js ''Sure. <think>a</think>b'') = Some [js ''a'', js ''b'']"
  by (simp add: regex_def THINK_OPEN_def THINK_CLOSE_def js_eval dot_def)

text \<open>
  C3, as the code has it. Every failure of a router operation is answered by an error
  object. Its status is 400 when the reasoning answer does not match the pattern, and 500
  for every other failure: a missing or empty prompt, a remote call that throws, a
  response without choices or without images, a \<^verbatim>\<open>null\<close> answer.
\<close>

theorem router_failure_status:
  "(\<not> truthy p \<longrightarrow>
      fst (post_llama rt p) = \<lparr>status = 500, body = ErrorBody PROMPT_REQUIRED\<rparr>
      \<and> fst (post_deepseek rt p) = \<lparr>status = 500, body = ErrorBody PROMPT_REQUIRED\<rparr>)
   \<and> (truthy p
        \<and> (chat_completions_create rt (chat_request rt (LLAMA AI_MODEL) p) = Inl f
            \<or> chat_completions_create rt (chat_request rt (LLAMA AI_MODEL) p)
                = Inr \<lparr>choices = []\<rparr>) \<longrightarrow>
      fst (post_llama rt p) = \<lparr>status = 500, body = ErrorBody CALL_FAILED\<rparr>)
   \<and> (truthy p
        \<and> (chat_completions_create rt (chat_request rt (DEEPSEEK AI_MODEL) p) = Inl f
            \<or> chat_completions_create rt (chat_request rt (DEEPSEEK AI_MODEL) p)
                = Inr \<lparr>choices = []\<rparr>) \<longrightarrow>
      fst (post_deepseek rt p) = \<lparr>status = 500, body = ErrorBody CALL_FAILED\<rparr>)
   \<and> (truthy p
        \<and> chat_completions_create rt (chat_request rt (DEEPSEEK AI_MODEL) p)
            = Inr \<lparr>choices = \<lparr>message_content = Some raw\<rparr> # cs\<rparr>
        \<and> match_from regex raw = None \<longrightarrow>
      fst (post_deepseek rt p) = \<lparr>status = 400, body = ErrorBody BAD_FORMAT\<rparr>)
   \<and> (fst (createImage rt (FLUX AI_MODEL) p) = Inl f \<longrightarrow>
      fst (post_flux rt p) = \<lparr>status = 500, body = ErrorBody (message f)\<rparr>)
   \<and> (case body (fst (post_llama rt p)) of
          ErrorBody e \<Rightarrow> status (fst (post_llama rt p)) = 500
        | _ \<Rightarrow> status (fst (post_llama rt p)) = 200)
   \<and> (case body (fst (post_flux rt p)) of
          ErrorBody e \<Rightarrow> status (fst (post_flux rt p)) = 500
        | _ \<Rightarrow> status (fst (post_flux rt p)) = 200)
   \<and> (case body (fst (post_deepseek rt p)) of
          ErrorBody e \<Rightarrow> status (fst (post_deepseek rt p)) = 500
            \<or> (status (fst (post_deepseek rt p)) = 400 \<and> e = BAD_FORMAT
                \<and> (\<exists>answer. fst (chatWithModel rt (DEEPSEEK AI_MODEL) p) = Inr (Some answer)
                      \<and> match_from regex answer = None))
        | _ \<Rightarrow> status (fst (post_deepseek rt p)) = 200)"
proof -
  have a: "fst (post_llama rt p) = \<lparr>status = 500, body = ErrorBody PROMPT_REQUIRED\<rparr>
      \<and> fst (post_deepseek rt p) = \<lparr>status = 500, body = ErrorBody PROMPT_REQUIRED\<rparr>"
    if "\<not> truthy p"
    using chatWithModel_falsy [OF that]
    by (simp add: post_llama_def post_deepseek_def caught_def)
  have b: "fst (case chatWithModel rt m p of
                  (Inl error, calls) \<Rightarrow> (caught error, calls)
                | (Inr answer, calls) \<Rightarrow> g answer calls)
             = \<lparr>status = 500, body = ErrorBody CALL_FAILED\<rparr>"
    if "truthy p"
      and "chat_completions_create rt (chat_request rt m p) = Inl f
           \<or> chat_completions_create rt (chat_request rt m p) = Inr \<lparr>choices = []\<rparr>"
    for m and g :: "jsstring option \<Rightarrow> remote_call list \<Rightarrow> reply \<times> remote_call list"
    using that(2)
  proof
    assume "chat_completions_create rt (chat_request rt m p) = Inl f"
    from chatWithModel_thrown [OF that(1) this] show ?thesis
      by (simp add: caught_def)
  next
    assume "chat_completions_create rt (chat_request rt m p) = Inr \<lparr>choices = []\<rparr>"
    from chatWithModel_no_choice [OF that(1) this] show ?thesis
      by (simp add: caught_def)
  qed
  have d: "fst (post_deepseek rt p) = \<lparr>status = 400, body = ErrorBody BAD_FORMAT\<rparr>"
    if "truthy p"
      and "chat_completions_create rt (chat_request rt (DEEPSEEK AI_MODEL) p)
            = Inr \<lparr>choices = \<lparr>message_content = Some raw\<rparr> # cs\<rparr>"
      and "match_from regex raw = None"
    using post_deepseek_answer [OF that(1,2), of "\<lparr>message_content = Some raw\<rparr>" cs]
      shape_no_match [OF that(3)]
    by simp
  have e: "fst (post_flux rt p) = \<lparr>status = 500, body = ErrorBody (message f)\<rparr>"
    if "fst (createImage rt (FLUX AI_MODEL) p) = Inl f"
    using that by (simp add: post_flux_reply)
  have l: "case body (fst (post_llama rt p)) of
             ErrorBody e \<Rightarrow> status (fst (post_llama rt p)) = 500
           | _ \<Rightarrow> status (fst (post_llama rt p)) = 200"
    by (simp add: post_llama_def caught_def json_def split: prod.splits sum.splits)
  have fl: "case body (fst (post_flux rt p)) of
             ErrorBody e \<Rightarrow> status (fst (post_flux rt p)) = 500
           | _ \<Rightarrow> status (fst (post_flux rt p)) = 200"
    by (simp add: post_flux_reply split: sum.splits)
  have ds: "case body (fst (post_deepseek rt p)) of
             ErrorBody e \<Rightarrow> status (fst (post_deepseek rt p)) = 500
               \<or> (status (fst (post_deepseek rt p)) = 400 \<and> e = BAD_FORMAT
                   \<and> (\<exists>answer. fst (chatWithModel rt (DEEPSEEK AI_MODEL) p) = Inr (Some answer)
                         \<and> match_from regex answer = None))
           | _ \<Rightarrow> status (fst (post_deepseek rt p)) = 200"
    by (simp add: post_deepseek_def shape_def caught_def json_def
        split: prod.splits sum.splits option.splits list.splits)
  from a b [of "LLAMA AI_MODEL" "\<lambda>answer calls. (json (Answer answer), calls)"]
    b [of "DEEPSEEK AI_MODEL"
          "\<lambda>answer calls. case shape answer of Inl error \<Rightarrow> (caught error, calls)
                                               | Inr r \<Rightarrow> (r, calls)"]
    d e l fl ds
  show ?thesis
    unfolding post_llama_def [symmetric] post_deepseek_def [symmetric] by blast
qed

theorem router_failure_status_witness:
  "fst (post_llama (fixed_runtime (Inl (Error (js ''down''))) (Inl (Error (js ''quota''))))
          (Some []))
     = \<lparr>status = 500, body = ErrorBody PROMPT_REQUIRED\<rparr>
   \<and> fst (post_llama (fixed_runtime (Inl (Error (js ''down''))) (Inl (Error (js ''quota''))))
          (Some (js ''hi'')))
     = \<lparr>status = 500, body = ErrorBody CALL_FAILED\<rparr>
   \<and> fst (post_deepseek (fixed_runtime (Inl (Error (js ''down''))) (Inl (Error (js ''quota''))))
          (Some (js ''hi'')))
     = \<lparr>status = 500, body = ErrorBody CALL_FAILED\<rparr>
   \<and> fst (post_deepseek (fixed_runtime (answering ''no tags'') (Inl (Error (js ''quota''))))
          (Some (js ''hi'')))
     = \<lparr>status = 400, body = ErrorBody BAD_FORMAT\<rparr>
   \<and> fst (post_flux (fixed_runtime (Inl (Error (js ''down''))) (Inl (Error (js ''quota''))))
          (Some (js ''a cat'')))
     = \<lparr>status = 500, body = ErrorBody (js ''quota'')\<rparr>"
proof -
  let ?down = "fixed_runtime (Inl (Error (js ''down''))) (Inl (Error (js ''quota'')))"
  let ?plain = "fixed_runtime (answering ''no tags'') (Inl (Error (js ''quota'')))"
  have r1: "fst (post_llama ?down (Some [])) = \<lparr>status = 500, body = ErrorBody PROMPT_REQUIRED\<rparr>"
    using router_failure_status [where p = "Some []" and rt = "?down"] by simp
  have r2: "fst (post_llama ?down (Some (js ''hi'')))
             = \<lparr>status = 500, body = ErrorBody CALL_FAILED\<rparr>"
    using router_failure_status
      [where p = "Some (js ''hi'')" and rt = "?down" and f = "Error (js ''down'')"]
    by (simp add: fixed_runtime_def js_eval)
  have r2': "fst (post_deepseek ?down (Some (js ''hi'')))
             = \<lparr>status = 500, body = ErrorBody CALL_FAILED\<rparr>"
    using router_failure_status
      [where p = "Some (js ''hi'')" and rt = "?down" and f = "Error (js ''down'')"]
    by (simp add: fixed_runtime_def js_eval)
  have "match_from regex (js ''no tags'') = None"
    by (simp add: regex_def THINK_OPEN_def js_eval)
  then have r3: "fst (post_deepseek ?plain (Some (js ''hi'')))
             = \<lparr>status = 400, body = ErrorBody BAD_FORMAT\<rparr>"
    using router_failure_status
      [where p = "Some (js ''hi'')" and rt = "?plain" and raw = "js ''no tags''" and cs = "[]"]
    by (simp add: fixed_runtime_def answering_def js_eval)
  have "fst (createImage ?down (FLUX AI_MODEL) (Some (js ''a cat''))) = Inl (Error (js ''quota''))"
    by (simp add: createImage_def getStepsFromModel_def fixed_runtime_def)
  then have r4: "fst (post_flux ?down (Some (js ''a cat'')))
             = \<lparr>status = 500, body = ErrorBody (js ''quota'')\<rparr>"
    using router_failure_status
      [where p = "Some (js ''a cat'')" and rt = "?down" and f = "Error (js ''quota'')"]
    by simp
  from r1 r2 r2' r3 r4 show ?thesis
    by (simp only:) 
qed

text \<open>The claim as written, refuted: an empty prompt is a request problem, and the
  primary chat answers it with status 500, outside the client-error class.\<close>

theorem empty_prompt_status_counterexample:
  "fst (chatWithModel (fixed_runtime (answering ''unused'') (Inl (Error [])))
          (LLAMA AI_MODEL) (Some []))
     = Inl (Error PROMPT_REQUIRED)
   \<and> status (fst (post_llama (fixed_runtime (answering ''unused'') (Inl (Error [])))
                 (Some []))) = 500
   \<and> \<not> client_error
          (status (fst (post_llama (fixed_runtime (answering ''unused'') (Inl (Error [])))
                         (Some []))))"
  by (simp add: post_llama_def chatWithModel_def caught_def client_error_def)

text \<open>
  C4. A raw answer without any \<^verbatim>\<open><think>\<close> tag does not match, and the reasoning chat
  answers it with the format error and status 400: the call is answered, nothing is
  thrown.
\<close>

theorem no_tag_bad_format:
  assumes "\<not> sublist THINK_OPEN raw"
    and "truthy p"
    and "chat_completions_create rt (chat_request rt (DEEPSEEK AI_MODEL) p) = Inr r"
    and "choices r = c # cs"
    and "message_content c = Some raw"
  shows "match_from regex raw = None
         \<and> shape (Some raw) = Inr \<lparr>status = 400, body = ErrorBody BAD_FORMAT\<rparr>
         \<and> post_deepseek rt p
             = (\<lparr>status = 400, body = ErrorBody BAD_FORMAT\<rparr>,
                [ChatCall (chat_request rt (DEEPSEEK AI_MODEL) p)])
         \<and> client_error (status (fst (post_deepseek rt p)))"
proof -
  have m: "match_from regex raw = None"
    using assms(1) by (rule regex_match_None)
  then have s: "shape (Some raw) = Inr \<lparr>status = 400, body = ErrorBody BAD_FORMAT\<rparr>"
    by (rule shape_no_match)
  with assms(5) have "shape (message_content c)
                        = Inr \<lparr>status = 400, body = ErrorBody BAD_FORMAT\<rparr>"
    by simp
  from post_deepseek_answer [OF assms(2-4) this] m s show ?thesis
    by (simp add: client_error_def)
qed

theorem no_tag_bad_format_witness:
  "match_from regex (js ''The answer is 42.'') = None
   \<and> post_deepseek (fixed_runtime (answering ''The answer is 42.'') (Inl (Error [])))
        (Some (js ''What is six times seven?''))
     = (\<lparr>status = 400, body = ErrorBody BAD_FORMAT\<rparr>,
        [ChatCall (chat_request (fixed_runtime (answering ''The answer is 42.'') (Inl (Error [])))
                     (DEEPSEEK AI_MODEL) (Some (js ''What is six times seven?'')))])"
proof -
  let ?rt = "fixed_runtime (answering ''The answer is 42.'') (Inl (Error []))"
  let ?c = "\<lparr>message_content = Some (js ''The answer is 42.'')\<rparr>"
  have h1: "\<not> sublist THINK_OPEN (js ''The answer is 42.'')"
    by (simp add: THINK_OPEN_def js_eval sublist_code)
  have h2: "truthy (Some (js ''What is six times seven?''))"
    by (simp add: js_eval)
  have h3: "chat_completions_create ?rt
              (chat_request ?rt (DEEPSEEK AI_MODEL) (Some (js ''What is six times seven?'')))
              = Inr \<lparr>choices = [?c]\<rparr>"
    by (simp add: fixed_runtime_def answering_def)
  have h4: "choices \<lparr>choices = [?c]\<rparr> = ?c # []"
    by simp
  have h5: "message_content ?c = Some (js ''The answer is 42.'')"
    by simp
  from no_tag_bad_format [OF h1 h2 h3 h4 h5] show ?thesis
    by simp
qed

text \<open>
  C5. A missing or empty prompt makes \<open>chatWithModel\<close> throw the prompt-required error
  before the remote call: both chat handlers answer with that error and no call has been
  issued.
\<close>

theorem falsy_prompt_no_call:
  assumes "p = None \<or> p = Some []"
  shows "chatWithModel rt m p = (Inl (Error PROMPT_REQUIRED), [])
         \<and> post_llama rt p = (\<lparr>status = 500, body = ErrorBody PROMPT_REQUIRED\<rparr>, [])
         \<and> post_deepseek rt p = (\<lparr>status = 500, body = ErrorBody PROMPT_REQUIRED\<rparr>, [])"
proof -
  from assms have "\<not> truthy p"
    by auto
  then have "chatWithModel rt m' p = (Inl (Error PROMPT_REQUIRED), [])" for m'
    by (rule chatWithModel_falsy)
  then show ?thesis
    by (simp add: post_llama_def post_deepseek_def caught_def)
qed

theorem falsy_prompt_no_call_witness:
  "snd (post_llama (fixed_runtime (answering ''never asked'') (Inl (Error []))) None) = []
   \<and> snd (post_deepseek (fixed_runtime (answering ''never asked'') (Inl (Error []))) (Some []))
       = []
   \<and> fst (post_deepseek (fixed_runtime (answering ''never asked'') (Inl (Error []))) (Some []))
       = \<lparr>status = 500, body = ErrorBody PROMPT_REQUIRED\<rparr>"
  using falsy_prompt_no_call
      [of None "fixed_runtime (answering ''never asked'') (Inl (Error []))" "[]"]
    falsy_prompt_no_call
      [of "Some []" "fixed_runtime (answering ''never asked'') (Inl (Error []))" "[]"]
  by simp

text \<open>
  C6. For a model other than the one image model with a step count, \<open>getStepsFromModel\<close>
  throws, and \<open>createImage\<close> fails with that error before any remote call.
\<close>

theorem unsupported_model_no_call:
  assumes "m \<noteq> FLUX AI_MODEL"
  shows "getStepsFromModel m = Inl (Error (js ''Not implemented''))
         \<and> createImage rt m p = (Inl (Error (js ''Not implemented'')), [])"
  using assms by (simp add: createImage_def getStepsFromModel_def)

theorem unsupported_model_no_call_witness:
  "createImage (fixed_runtime (answering ''unused'') (Inr \<lparr>data = [\<lparr>url = js ''https://img''\<rparr>]\<rparr>))
     (js ''stabilityai/stable-diffusion-xl-base-1.0'') (Some (js ''a cat''))
     = (Inl (Error (js ''Not implemented'')), [])"
proof -
  have "js ''stabilityai/stable-diffusion-xl-base-1.0'' \<noteq> FLUX AI_MODEL"
    by (simp add: AI_MODEL_def js_eval)
  from unsupported_model_no_call [OF this] show ?thesis
    by simp
qed

text \<open>
  C7. With the image model of the registry, the one request sent to the provider has
  steps 4, width 1024, height 1024 and n 1, whatever the prompt.
\<close>

theorem flux_request_parameters:
  "snd (createImage rt (FLUX AI_MODEL) p)
     = [ImageCall \<lparr>width = 1024, height = 1024, n = 1, model = FLUX AI_MODEL, prompt = p,
                   steps = 4\<rparr>]
   \<and> snd (post_flux rt p)
     = [ImageCall \<lparr>width = 1024, height = 1024, n = 1, model = FLUX AI_MODEL, prompt = p,
                   steps = 4\<rparr>]"
  by (simp add: post_flux_reply image_request_sent)

theorem flux_request_parameters_witness:
  "snd (post_flux (fixed_runtime (answering ''unused'') (Inl (Error (js ''quota''))))
          (Some (js ''a cat'')))
     = [ImageCall \<lparr>width = 1024, height = 1024, n = 1, model = FLUX AI_MODEL,
                   prompt = Some (js ''a cat''), steps = 4\<rparr>]"
  using flux_request_parameters
      [of "fixed_runtime (answering ''unused'') (Inl (Error (js ''quota'')))"
          "Some (js ''a cat'')"]
  by simp

text \<open>
  C8. For a non-empty prompt each chat operation sends exactly one request: its messages
  are the system message with the configured text and the user message with the prompt,
  and its safety model is the guard model.
\<close>

theorem chat_request_sent:
  assumes "truthy p"
  shows "snd (post_llama rt p)
           = [ChatCall \<lparr>chat_model = LLAMA AI_MODEL, safety_model = GUARD AI_MODEL,
                messages = [\<lparr>role = js ''system'', content = Some (CHAT_SYSTEM_MESSAGE rt)\<rparr>,
                            \<lparr>role = js ''user'', content = p\<rparr>]\<rparr>]
         \<and> snd (post_deepseek rt p)
           = [ChatCall \<lparr>chat_model = DEEPSEEK AI_MODEL, safety_model = GUARD AI_MODEL,
                messages = [\<lparr>role = js ''system'', content = Some (CHAT_SYSTEM_MESSAGE rt)\<rparr>,
                            \<lparr>role = js ''user'', content = p\<rparr>]\<rparr>]"
proof -
  have "snd (post_llama rt p) = snd (chatWithModel rt (LLAMA AI_MODEL) p)"
    by (simp add: post_llama_def split: prod.splits sum.splits)
  moreover have "snd (post_deepseek rt p) = snd (chatWithModel rt (DEEPSEEK AI_MODEL) p)"
    by (simp add: post_deepseek_def split: prod.splits sum.splits)
  ultimately show ?thesis
    using assms by (simp add: chatWithModel_calls chat_request_def)
qed

theorem chat_request_sent_witness:
  "snd (post_llama (fixed_runtime (answering ''Hello!'') (Inl (Error []))) (Some (js ''hi'')))
     = [ChatCall \<lparr>chat_model = LLAMA AI_MODEL, safety_model = GUARD AI_MODEL,
          messages = [\<lparr>role = js ''system'', content = Some DEFAULT_SYSTEM_MESSAGE\<rparr>,
                      \<lparr>role = js ''user'', content = Some (js ''hi'')\<rparr>]\<rparr>]"
proof -
  have "truthy (Some (js ''hi''))"
    by (simp add: js_eval)
  from chat_request_sent [OF this] show ?thesis
    by (simp add: CHAT_SYSTEM_MESSAGE_def fixed_runtime_def)
qed

text \<open>
  C9. The image operation does not look at its prompt. Whatever the prompt is, a missing
  or an empty one included, the request goes out with it, and what comes back is decided
  by the provider's response alone.
\<close>

theorem image_prompt_not_validated:
  "snd (post_flux rt p)
     = [ImageCall \<lparr>width = 1024, height = 1024, n = 1, model = FLUX AI_MODEL, prompt = p,
                   steps = 4\<rparr>]
   \<and> fst (post_flux rt p)
     = (case images_create rt \<lparr>width = 1024, height = 1024, n = 1, model = FLUX AI_MODEL,
                               prompt = p, steps = 4\<rparr> of
          Inl f \<Rightarrow> \<lparr>status = 500, body = ErrorBody (message f)\<rparr>
        | Inr r \<Rightarrow> (case data r of
                      [] \<Rightarrow> \<lparr>status = 500,
                              body = ErrorBody (message (cannot_read ''undefined'' ''url''))\<rparr>
                    | d # ds \<Rightarrow> \<lparr>status = 200, body = Result (url d)\<rparr>))"
  by (simp add: post_flux_reply image_request_sent createImage_result
      split: sum.splits list.splits)

theorem image_prompt_not_validated_witness:
  "post_flux (fixed_runtime (answering ''unused'') (Inr \<lparr>data = [\<lparr>url = js ''https://img''\<rparr>]\<rparr>))
     (Some [])
     = (\<lparr>status = 200, body = Result (js ''https://img'')\<rparr>,
        [ImageCall \<lparr>width = 1024, height = 1024, n = 1, model = FLUX AI_MODEL,
                    prompt = Some [], steps = 4\<rparr>])
   \<and> post_flux (fixed_runtime (answering ''unused'') (Inr \<lparr>data = [\<lparr>url = js ''https://img''\<rparr>]\<rparr>))
       None
     = (\<lparr>status = 200, body = Result (js ''https://img'')\<rparr>,
        [ImageCall \<lparr>width = 1024, height = 1024, n = 1, model = FLUX AI_MODEL,
                    prompt = None, steps = 4\<rparr>])"
  using image_prompt_not_validated
      [of "fixed_runtime (answering ''unused'') (Inr \<lparr>data = [\<lparr>url = js ''https://img''\<rparr>]\<rparr>)"
          "Some []"]
    image_prompt_not_validated
      [of "fixed_runtime (answering ''unused'') (Inr \<lparr>data = [\<lparr>url = js ''https://img''\<rparr>]\<rparr>)"
          None]
  by (simp add: fixed_runtime_def prod_eq_iff)




end
